theory Spec2Isabelle
  imports Main
begin

section \<open>Shape types\<close>

text \<open>
  The shape types are the objects of the datashape library, which both modules import.
  A scalar leaf is one of the library's unit types.  The constants \<open>datashape.bool_\<close>,
  \<open>datashape.int8\<close>, ..., \<open>datashape.null\<close> are written \<open>ds_bool\<close>, \<open>ds_int8\<close>, ...,
  \<open>ds_null\<close>; \<open>TimeDelta u\<close> is \<open>TimeDelta(unit=u)\<close>; \<open>OtherUnit n\<close> stands for any other
  unit type (an unsigned integer, a string of fixed length, ...), named \<open>n\<close>.
\<close>

datatype scalar =
    ds_bool | ds_int8 | ds_int16 | ds_int32 | ds_int64 | ds_float32 | ds_float64
  | ds_string | ds_bytes | ds_date | ds_time | ds_datetime | ds_null
  | TimeDelta string
  | OtherUnit string

text \<open>The library declares \<open>real\<close> as another name of \<open>float64\<close>.\<close>

definition ds_real :: scalar where
  "ds_real = ds_float64"

text \<open>
  A \<open>Mono\<close> object: a unit type, a dimension (\<open>Var\<close>, \<open>Fixed n\<close>), an \<open>Option\<close> around
  a type, a \<open>Record\<close> of named fields in order, a \<open>Tuple\<close> of positional types, or a
  \<open>DataShape\<close>, whose parameters are a non-empty sequence: \<open>DataShape p ps\<close> has the
  parameters \<open>p # ps\<close>.
\<close>

datatype mono =
    Unit scalar
  | Var
  | Fixed nat
  | Option mono
  | Record "(string \<times> mono) list"
  | Tuple "mono list"
  | DataShape mono "mono list"

text \<open>\<open>isdimension\<close> of \<open>datashape.predicates\<close>: an instance of a dimension class.\<close>

fun isdimension :: "mono \<Rightarrow> bool" where
  "isdimension Var = True"
| "isdimension (Fixed n) = True"
| "isdimension _ = False"

text \<open>\<open>isinstance(ds, Option)\<close> and \<open>isinstance(ds, DataShape)\<close>.\<close>

fun is_Option :: "mono \<Rightarrow> bool" where
  "is_Option (Option ty) = True"
| "is_Option _ = False"

fun is_DataShape :: "mono \<Rightarrow> bool" where
  "is_DataShape (DataShape p ps) = True"
| "is_DataShape _ = False"

text \<open>
  \<open>len(ds)\<close> and \<open>ds[0]\<close>: the number of parameters of a \<open>DataShape\<close> and its first one;
  every other \<open>Mono\<close> behaves as the one-element sequence of itself.
\<close>

fun len :: "mono \<Rightarrow> nat" where
  "len (DataShape p ps) = Suc (length ps)"
| "len _ = 1"

fun getitem0 :: "mono \<Rightarrow> mono" where
  "getitem0 (DataShape p ps) = p"
| "getitem0 ds = ds"

text \<open>
  What the constructors of the library do to a \<open>Mono\<close> argument before they store it
  (\<open>_launder\<close>): a \<open>DataShape\<close> of one parameter is replaced by that parameter.
\<close>

fun launder :: "mono \<Rightarrow> mono" where
  "launder (DataShape p []) = p"
| "launder x = x"

text \<open>
  The library calls of the two converters: \<open>Option(ty)\<close>, \<open>Record(fields)\<close>,
  \<open>datashape.dshape(r)\<close> for a record \<open>r\<close> (the \<open>DataShape\<close> whose only parameter is
  \<open>r\<close>), and \<open>datashape.var * ds\<close>, which puts the dimension in front of the
  parameters of a \<open>DataShape\<close> and in front of any other type.
\<close>

definition Option_init :: "mono \<Rightarrow> mono" where
  "Option_init ty = Option (launder ty)"

definition Record_init :: "(string \<times> mono) list \<Rightarrow> mono" where
  "Record_init fields = Record (map (\<lambda>(name, ty). (name, launder ty)) fields)"

definition datashape_dshape :: "mono \<Rightarrow> mono" where
  "datashape_dshape r = DataShape (launder r) []"

definition var_mul :: "mono \<Rightarrow> mono" where
  "var_mul ds = (case ds of
      DataShape p ps \<Rightarrow> DataShape Var (map launder (p # ps))
    | _ \<Rightarrow> DataShape Var [launder ds])"

section \<open>Schema types\<close>

text \<open>
  The schema types of \<open>pyspark.sql.types\<close>.  A \<open>StructType\<close> holds its fields in order;
  a field \<open>StructField(name, dataType, nullable)\<close> is the triple of its attributes.
  \<open>OtherType n\<close> stands for an instance of any other schema class, named \<open>n\<close>.
\<close>

datatype schema =
    ByteType | ShortType | IntegerType | LongType | FloatType | DoubleType
  | StringType | BinaryType | BooleanType | TimestampType | DateType
  | ArrayType schema bool
  | StructType "(string \<times> schema \<times> bool) list"
  | MapType schema schema bool
  | OtherType string

abbreviation StructField :: "string \<Rightarrow> schema \<Rightarrow> bool \<Rightarrow> string \<times> schema \<times> bool" where
  "StructField name dataType nullable \<equiv> (name, dataType, nullable)"

text \<open>\<open>type(schema).__name__\<close>.\<close>

fun type_name :: "schema \<Rightarrow> string" where
  "type_name ByteType = ''ByteType''"
| "type_name ShortType = ''ShortType''"
| "type_name IntegerType = ''IntegerType''"
| "type_name LongType = ''LongType''"
| "type_name FloatType = ''FloatType''"
| "type_name DoubleType = ''DoubleType''"
| "type_name StringType = ''StringType''"
| "type_name BinaryType = ''BinaryType''"
| "type_name BooleanType = ''BooleanType''"
| "type_name TimestampType = ''TimestampType''"
| "type_name DateType = ''DateType''"
| "type_name (ArrayType elementType containsNull) = ''ArrayType''"
| "type_name (StructType fields) = ''StructType''"
| "type_name (MapType keyType valueType valueContainsNull) = ''MapType''"
| "type_name (OtherType n) = n"

text \<open>\<open>'%r' % s\<close> for a class name \<open>s\<close>: the name between single quotes.\<close>

definition repr :: "string \<Rightarrow> string" where
  "repr s = [CHR 0x27] @ s @ [CHR 0x27]"

section \<open>Errors\<close>

text \<open>
  The exceptions of the converters.  \<open>TypeError msg dshapes\<close> is the \<open>TypeError\<close> whose
  message is \<open>msg\<close> followed by the rendering of the tuple \<open>dshapes\<close>;
  \<open>NotImplementedError args\<close> carries the arguments it was raised with; \<open>IndexError\<close> is
  what the library raises for a \<open>DataShape\<close> with no parameter after its dimension.
\<close>

datatype error =
    TypeError string "mono list"
  | NotImplementedError "string list"
  | IndexError

text \<open>
  A list comprehension whose element expression may raise: the elements are computed
  from left to right and the first exception ends the comprehension.
\<close>

fun traverse :: "('a \<Rightarrow> 'e + 'b) \<Rightarrow> 'a list \<Rightarrow> 'e + 'b list" where
  "traverse f [] = Inr []"
| "traverse f (x # xs) =
    (case f x of
       Inl e \<Rightarrow> Inl e
     | Inr y \<Rightarrow> (case traverse f xs of Inl e \<Rightarrow> Inl e | Inr ys \<Rightarrow> Inr (y # ys)))"

section \<open>The converters of odo.backends.sparksql\<close>

text \<open>
  \<open>ds.subshape[0]\<close> of a \<open>DataShape\<close> whose first parameter is a dimension: the
  \<open>DataShape\<close> of the parameters after the first.
\<close>

fun subshape0 :: "mono \<Rightarrow> error + mono" where
  "subshape0 (DataShape p (q # qs)) = Inr (DataShape q qs)"
| "subshape0 ds = Inl IndexError"

text \<open>
  \<open>deoption\<close>, on a shape that is already an object of the library (the source first
  parses a shape given as a string).
\<close>

fun deoption :: "mono \<Rightarrow> mono" where
  "deoption (DataShape p ps) = (if \<not> isdimension p then deoption p else DataShape p ps)"
| "deoption (Option ty) = ty"
| "deoption ds = ds"

text \<open>
  The two lookup tables.  A scalar schema class has no attribute, so the class that keys
  \<open>sparksql_to_dshape\<close> is written as its instance.  A dictionary display keeps one entry
  per key; \<open>map_of\<close> reads the first pair of a key, and the pairs of a repeated key
  (\<open>float64\<close> and \<open>real\<close>) carry the same value.
\<close>

definition sparksql_to_dshape :: "(schema \<times> mono) list" where
  "sparksql_to_dshape =
    [(ByteType, Unit ds_int8),
     (ShortType, Unit ds_int16),
     (IntegerType, Unit ds_int32),
     (LongType, Unit ds_int64),
     (FloatType, Unit ds_float32),
     (DoubleType, Unit ds_float64),
     (StringType, Unit ds_string),
     (BinaryType, Unit ds_bytes),
     (BooleanType, Unit ds_bool),
     (TimestampType, Unit ds_datetime),
     (DateType, Unit ds_date)]"

definition dshape_to_sparksql :: "(mono \<times> schema) list" where
  "dshape_to_sparksql =
    [(Unit ds_int16, ShortType),
     (Unit ds_int32, IntegerType),
     (Unit ds_int64, LongType),
     (Unit ds_float32, FloatType),
     (Unit ds_float64, DoubleType),
     (Unit ds_real, DoubleType),
     (Unit ds_time, TimestampType),
     (Unit ds_date, DateType),
     (Unit ds_datetime, TimestampType),
     (Unit ds_bool, BooleanType),
     (Unit ds_string, StringType)]"

lemma size_deoption: "size (deoption ds) \<le> size ds"
  by (induction ds rule: deoption.induct) auto

lemma size_field [termination_simp]:
  "(name, typ) \<in> set fields \<Longrightarrow> size typ < Suc (size_list (size_prod (\<lambda>x. 0) size) fields)"
  by (induction fields) auto

lemma traverse_cong [fundef_cong]:
  "xs = ys \<Longrightarrow> (\<And>x. x \<in> set ys \<Longrightarrow> f x = g x) \<Longrightarrow> traverse f xs = traverse g ys"
  by (induction ys arbitrary: xs) (auto split: sum.splits)

text \<open>
  \<open>dshape_to_schema\<close>, on a shape that is already an object of the library.  The
  \<open>isinstance\<close> tests are the equations, in the order of the source; the last
  equation is the lookup in \<open>dshape_to_sparksql\<close> and the final
  \<open>raise NotImplementedError()\<close>.
\<close>

function (sequential) dshape_to_schema :: "mono \<Rightarrow> error + schema" where
  "dshape_to_schema (Tuple dshapes) =
     Inl (TypeError ''Please provide a Record dshape for these column types: '' dshapes)"
| "dshape_to_schema (Record fields) =
     (case traverse (\<lambda>(name, typ).
              case dshape_to_schema (deoption typ) of
                Inl e \<Rightarrow> Inl e
              | Inr s \<Rightarrow> Inr (StructField name s (is_Option typ))) fields of
        Inl e \<Rightarrow> Inl e
      | Inr fs \<Rightarrow> Inr (StructType fs))"
| "dshape_to_schema (DataShape p ps) =
     (if isdimension p then
        (case subshape0 (DataShape p ps) of
           Inl e \<Rightarrow> Inl e
         | Inr elem0 \<Rightarrow>
             (let elem = (if is_DataShape elem0 \<and> len elem0 = 1 then getitem0 elem0 else elem0)
              in case dshape_to_schema (deoption elem) of
                   Inl e \<Rightarrow> Inl e
                 | Inr s \<Rightarrow> Inr (ArrayType s (is_Option elem))))
      else dshape_to_schema p)"
| "dshape_to_schema ds =
     (case map_of dshape_to_sparksql ds of
        Some s \<Rightarrow> Inr s
      | None \<Rightarrow> Inl (NotImplementedError []))"
  by pat_completeness auto
termination
proof (relation "measure size", goal_cases)
  case 1
  show ?case by simp
next
  case (2 fs x n ty)
  then show ?case
    using size_deoption [of ty] size_field [of n ty fs] by simp
next
  case (3 p ps elem0 elem)
  then show ?case
    using size_deoption [of elem]
    by (cases ps) (auto split: if_splits)
next
  case (4 p ps)
  show ?case by simp
qed

lemma size_struct_field [termination_simp]:
  "(name, dataType, nullable) \<in> set fields \<Longrightarrow>
     size dataType < Suc (size_list (size_prod (\<lambda>x. 0) (size_prod size (\<lambda>x. 0))) fields)"
  by (induction fields) auto

text \<open>
  \<open>schema_to_dshape\<close>: the lookup of the schema's class first, then the array and the
  struct, then the error that names the class.
\<close>

fun schema_to_dshape :: "schema \<Rightarrow> error + mono" where
  "schema_to_dshape schema =
     (case map_of sparksql_to_dshape schema of
        Some ds \<Rightarrow> Inr ds
      | None \<Rightarrow>
          (case schema of
             ArrayType elementType containsNull \<Rightarrow>
               (case schema_to_dshape elementType of
                  Inl e \<Rightarrow> Inl e
                | Inr dshape \<Rightarrow>
                    Inr (var_mul (if containsNull then Option_init dshape else dshape)))
           | StructType fields \<Rightarrow>
               (case traverse (\<lambda>(name, dataType, nullable).
                        if nullable then
                          (case schema_to_dshape dataType of
                             Inl e \<Rightarrow> Inl e
                           | Inr d \<Rightarrow> Inr (name, Option_init d))
                        else
                          (case schema_to_dshape dataType of
                             Inl e \<Rightarrow> Inl e
                           | Inr d \<Rightarrow> Inr (name, d))) fields of
                  Inl e \<Rightarrow> Inl e
                | Inr fs \<Rightarrow> Inr (datashape_dshape (Record_init fs)))
           | _ \<Rightarrow>
               Inl (NotImplementedError
                      [''SparkSQL type not known '' @ repr (type_name schema)])))"

section \<open>The table reflector of kdbpy.compute.qtable\<close>

text \<open>
  The exceptions of this module: the \<open>KeyError\<close> of a dictionary lookup, with the key, and
  the \<open>TypeError\<close> of \<open>int(None)\<close>.
\<close>

datatype kdb_error =
    KeyError string
  | IntTypeError

definition qtypes :: "(string \<times> mono) list" where
  "qtypes =
    [(''b'', Unit ds_bool),
     (''x'', Unit ds_int8),
     (''h'', Unit ds_int16),
     (''i'', Unit ds_int32),
     (''j'', Unit ds_int64),
     (''e'', Unit ds_float32),
     (''f'', Unit ds_float64),
     (''c'', Unit ds_string),
     (''s'', Unit ds_string),
     (''m'', Unit ds_date),
     (''d'', Unit ds_date),
     (''z'', Unit ds_datetime),
     (''p'', Unit ds_datetime),
     (''u'', Unit (TimeDelta ''m'')),
     (''v'', Unit (TimeDelta ''s'')),
     (''n'', Unit (TimeDelta ''ns'')),
     (''t'', Unit (TimeDelta ''ms'')),
     ('''', Unit ds_null)]"

text \<open>The subscription \<open>qtypes[code]\<close>: a code that is no key raises \<open>KeyError\<close>.\<close>

definition qtypes_getitem :: "string \<Rightarrow> kdb_error + mono" where
  "qtypes_getitem code =
     (case map_of qtypes code of
        None \<Rightarrow> Inl (KeyError code)
      | Some ds \<Rightarrow> Inr ds)"

text \<open>
  \<open>str.lower\<close> on strings of ASCII characters, which the type codes of the store are:
  the letters \<open>A\<close> to \<open>Z\<close> are lowered and every other character is kept.  A capital
  outside ASCII, which \<open>str.lower\<close> would also lower, is outside this model.
\<close>

definition lower_char :: "char \<Rightarrow> char" where
  "lower_char c =
     (if of_char CHR ''A'' \<le> (of_char c :: nat) \<and> (of_char c :: nat) \<le> of_char CHR ''Z''
      then char_of (of_char c + 32 :: nat) else c)"

definition lower :: "string \<Rightarrow> string" where
  "lower s = map lower_char s"

text \<open>\<open>fillna('')\<close> on the column of type codes: a missing code becomes the empty string.\<close>

definition fillna :: "string option list \<Rightarrow> string list" where
  "fillna col = map (\<lambda>c. case c of None \<Rightarrow> '''' | Some s \<Rightarrow> s) col"

text \<open>
  An ordered dictionary built from a list of pairs: a new key is added at the end, and a
  key that is already there keeps its place and takes the new value.
\<close>

fun od_setitem :: "'k \<Rightarrow> 'v \<Rightarrow> ('k \<times> 'v) list \<Rightarrow> ('k \<times> 'v) list" where
  "od_setitem k v [] = [(k, v)]"
| "od_setitem k v ((k', v') # d) =
     (if k' = k then (k, v) # d else (k', v') # od_setitem k v d)"

definition OrderedDict :: "('k \<times> 'v) list \<Rightarrow> ('k \<times> 'v) list" where
  "OrderedDict pairs = foldl (\<lambda>d (k, v). od_setitem k v d) [] pairs"

text \<open>
  \<open>tables\<close>, on what the two queries return: the table names zipped with the metadata
  of each table, the metadata being the column names (\<open>meta.index\<close>) with their type
  codes (\<open>meta.t\<close>).  \<open>table_types\<close> is the comprehension over the type codes and
  \<open>table_syms\<close> the loop that collects the name of each table with the shape of its
  symbol; the result is the ordered dictionary of these pairs.
\<close>

definition table_types :: "(string \<times> string option) list \<Rightarrow> kdb_error + mono list" where
  "table_types meta = traverse (\<lambda>c. qtypes_getitem (lower c)) (fillna (map snd meta))"

fun table_syms ::
  "(string \<times> (string \<times> string option) list) list \<Rightarrow> kdb_error + (string \<times> mono) list" where
  "table_syms [] = Inr []"
| "table_syms ((name, meta) # rest) =
     (case table_types meta of
        Inl e \<Rightarrow> Inl e
      | Inr types \<Rightarrow>
          (case table_syms rest of
             Inl e \<Rightarrow> Inl e
           | Inr syms \<Rightarrow> Inr ((name, var_mul (Record_init (zip (map fst meta) types))) # syms)))"

definition tables ::
  "(string \<times> (string \<times> string option) list) list \<Rightarrow> kdb_error + (string \<times> mono) list" where
  "tables metadata =
     (case table_syms metadata of
        Inl e \<Rightarrow> Inl e
      | Inr syms \<Rightarrow> Inr (OrderedDict syms))"

text \<open>
  The value \<open>qp(t)\<close> returns, the result of the store's \<open>.Q.qp\<close> as a Python scalar: a
  \<open>bool\<close>, an \<open>int\<close>, or \<open>None\<close>.
\<close>

datatype pyval =
    PyBool bool
  | PyInt int
  | PyNone

text \<open>\<open>int(r)\<close>: \<open>True\<close> is 1, \<open>False\<close> is 0, \<open>None\<close> raises \<open>TypeError\<close>.\<close>

fun py_int :: "pyval \<Rightarrow> kdb_error + int" where
  "py_int (PyBool b) = Inr (if b then 1 else 0)"
| "py_int (PyInt i) = Inr i"
| "py_int PyNone = Inl IntTypeError"

text \<open>
  The three classifications, as functions of the value \<open>r\<close> that \<open>qp(t)\<close> returned.
  \<open>r is True\<close> and \<open>r is False\<close> hold for the two \<open>bool\<close> objects only; \<open>int(r) is 0\<close>
  holds when the integer is 0 (the interpreter keeps one object for each small integer).
\<close>

definition is_partitioned :: "pyval \<Rightarrow> bool" where
  "is_partitioned r = (r = PyBool True)"

definition is_splayed :: "pyval \<Rightarrow> bool" where
  "is_splayed r = (r = PyBool False)"

definition is_standard :: "pyval \<Rightarrow> kdb_error + bool" where
  "is_standard r =
     (case py_int r of
        Inl e \<Rightarrow> Inl e
      | Inr i \<Rightarrow> Inr (i = 0))"

section \<open>Round trips and the predicates of the statements\<close>

text \<open>Converting a shape to a schema and back, and a schema to a shape and back.\<close>

definition shape_roundtrip :: "mono \<Rightarrow> error + mono" where
  "shape_roundtrip ds =
     (case dshape_to_schema ds of
        Inl e \<Rightarrow> Inl e
      | Inr s \<Rightarrow> schema_to_dshape s)"

definition schema_roundtrip :: "schema \<Rightarrow> error + schema" where
  "schema_roundtrip s =
     (case schema_to_dshape s of
        Inl e \<Rightarrow> Inl e
      | Inr ds \<Rightarrow> dshape_to_schema ds)"

text \<open>
  The scalar shapes of the schema system are the values of \<open>sparksql_to_dshape\<close>; the
  convertible ones are those that \<open>dshape_to_sparksql\<close> has an entry for.
\<close>

definition schema_leaves :: "mono list" where
  "schema_leaves = map snd sparksql_to_dshape"

definition convertible_leaves :: "mono list" where
  "convertible_leaves = filter (\<lambda>ds. map_of dshape_to_sparksql ds \<noteq> None) schema_leaves"

text \<open>
  The shapes that the schema system represents, over a list of scalar leaves: a leaf of
  the list, a record whose field types are representable or an \<open>Option\<close> around a
  representable type (a nullable field), and an array, that is a \<open>DataShape\<close> of \<open>Var\<close>
  dimensions whose measure is a leaf or a record, or an \<open>Option\<close> around a representable
  type (an array whose elements may be null).
\<close>

fun representable :: "mono list \<Rightarrow> mono \<Rightarrow> bool"
  and representable_field :: "mono list \<Rightarrow> mono \<Rightarrow> bool" where
  "representable leaves (Unit u) = (Unit u \<in> set leaves)"
| "representable leaves (Record fields) =
     list_all (\<lambda>(name, ty). representable_field leaves ty) fields"
| "representable leaves (DataShape p ps) =
     (p = Var \<and>
      (case ps of
         [] \<Rightarrow> False
       | q # qs \<Rightarrow>
           if qs = [] then \<not> is_DataShape q \<and> representable_field leaves q
           else representable leaves (DataShape q qs)))"
| "representable leaves ds = False"
| "representable_field leaves (Option ty) = representable leaves ty"
| "representable_field leaves ds = representable leaves ds"

text \<open>
  What \<open>schema_to_dshape\<close> returns for the schema of a representable shape: a record
  comes back inside a \<open>DataShape\<close> of one parameter, every other shape as it is.
\<close>

fun canon :: "mono \<Rightarrow> mono" where
  "canon (Record fields) = DataShape (Record fields) []"
| "canon ds = ds"

text \<open>
  A shape that \<open>deoption\<close> leaves as it is (\<open>stripped\<close>), and a shape that \<open>deoption\<close>
  turns into a stripped one (\<open>one_layer\<close>): the first \<open>Option\<close> it reaches, if any, is
  around a stripped shape.
\<close>

fun stripped :: "mono \<Rightarrow> bool" where
  "stripped (Option ty) = False"
| "stripped (DataShape p ps) = isdimension p"
| "stripped ds = True"

fun one_layer :: "mono \<Rightarrow> bool" where
  "one_layer (DataShape p ps) = (if \<not> isdimension p then one_layer p else True)"
| "one_layer (Option ty) = stripped ty"
| "one_layer ds = True"

text \<open>
  The rule for the element of an array as the specification words it, to compare with
  \<open>dshape_to_schema\<close>: an element that is a record of one entry is replaced by the type
  of that entry, then the \<open>Option\<close> is stripped and the result converted.
\<close>

definition unwrap_one_entry_record :: "mono \<Rightarrow> mono" where
  "unwrap_one_entry_record el = (case el of Record [(name, ty)] \<Rightarrow> ty | _ \<Rightarrow> el)"

definition spec_array_schema :: "mono \<Rightarrow> error + schema" where
  "spec_array_schema el =
     (let elem = unwrap_one_entry_record el
      in case dshape_to_schema (deoption elem) of
           Inl e \<Rightarrow> Inl e
         | Inr s \<Rightarrow> Inr (ArrayType s (is_Option elem)))"

section \<open>Equations of the converters\<close>

declare schema_to_dshape.simps [simp del]

lemma schema_to_dshape_scalar:
  "schema_to_dshape ByteType = Inr (Unit ds_int8)"
  "schema_to_dshape ShortType = Inr (Unit ds_int16)"
  "schema_to_dshape IntegerType = Inr (Unit ds_int32)"
  "schema_to_dshape LongType = Inr (Unit ds_int64)"
  "schema_to_dshape FloatType = Inr (Unit ds_float32)"
  "schema_to_dshape DoubleType = Inr (Unit ds_float64)"
  "schema_to_dshape StringType = Inr (Unit ds_string)"
  "schema_to_dshape BinaryType = Inr (Unit ds_bytes)"
  "schema_to_dshape BooleanType = Inr (Unit ds_bool)"
  "schema_to_dshape TimestampType = Inr (Unit ds_datetime)"
  "schema_to_dshape DateType = Inr (Unit ds_date)"
  by (simp_all add: schema_to_dshape.simps sparksql_to_dshape_def)

lemma schema_to_dshape_ArrayType:
  "schema_to_dshape (ArrayType elementType containsNull) =
     (case schema_to_dshape elementType of
        Inl e \<Rightarrow> Inl e
      | Inr dshape \<Rightarrow> Inr (var_mul (if containsNull then Option_init dshape else dshape)))"
  by (subst schema_to_dshape.simps) (simp add: sparksql_to_dshape_def)

lemma schema_to_dshape_StructType:
  "schema_to_dshape (StructType fields) =
     (case traverse (\<lambda>(name, dataType, nullable).
              if nullable then
                (case schema_to_dshape dataType of
                   Inl e \<Rightarrow> Inl e
                 | Inr d \<Rightarrow> Inr (name, Option_init d))
              else
                (case schema_to_dshape dataType of
                   Inl e \<Rightarrow> Inl e
                 | Inr d \<Rightarrow> Inr (name, d))) fields of
        Inl e \<Rightarrow> Inl e
      | Inr fs \<Rightarrow> Inr (datashape_dshape (Record_init fs)))"
  by (subst schema_to_dshape.simps) (simp add: sparksql_to_dshape_def)

lemma schema_to_dshape_MapType:
  "schema_to_dshape (MapType keyType valueType valueContainsNull) =
     Inl (NotImplementedError [''SparkSQL type not known '' @ repr ''MapType''])"
  by (subst schema_to_dshape.simps) (simp add: sparksql_to_dshape_def)

lemma schema_to_dshape_OtherType:
  "schema_to_dshape (OtherType n) =
     Inl (NotImplementedError [''SparkSQL type not known '' @ repr n])"
  by (subst schema_to_dshape.simps) (simp add: sparksql_to_dshape_def)

lemma elem_unwrap:
  "(if is_DataShape (DataShape q qs) \<and> len (DataShape q qs) = 1
    then getitem0 (DataShape q qs) else DataShape q qs) =
   (if qs = [] then q else DataShape q qs)"
  by simp

lemma dshape_to_schema_dimension:
  "isdimension p \<Longrightarrow>
   dshape_to_schema (DataShape p (q # qs)) =
     (case dshape_to_schema (deoption (if qs = [] then q else DataShape q qs)) of
        Inl e \<Rightarrow> Inl e
      | Inr s \<Rightarrow> Inr (ArrayType s (is_Option (if qs = [] then q else DataShape q qs))))"
  by (subst dshape_to_schema.simps)
     (simp add: Let_def del: dshape_to_schema.simps cong: sum.case_cong)

lemma traverse_Inl:
  "traverse f xs = Inl e \<Longrightarrow> \<exists>x \<in> set xs. f x = Inl e"
  by (induction xs) (auto split: sum.splits)

lemma case_sum_Inl:
  "(case x of Inl e \<Rightarrow> Inl e | Inr s \<Rightarrow> Inr (g s)) = Inl err \<Longrightarrow> x = Inl err"
  by (cases x) auto

lemma convertible_leaves_eq:
  "convertible_leaves =
     [Unit ds_int16, Unit ds_int32, Unit ds_int64, Unit ds_float32, Unit ds_float64,
      Unit ds_string, Unit ds_bool, Unit ds_datetime, Unit ds_date]"
  by (simp add: convertible_leaves_def schema_leaves_def sparksql_to_dshape_def
        dshape_to_sparksql_def ds_real_def)

lemma schema_leaves_eq:
  "schema_leaves =
     [Unit ds_int8, Unit ds_int16, Unit ds_int32, Unit ds_int64, Unit ds_float32,
      Unit ds_float64, Unit ds_string, Unit ds_bytes, Unit ds_bool, Unit ds_datetime,
      Unit ds_date]"
  by (simp add: schema_leaves_def sparksql_to_dshape_def)

section \<open>The round trip of representable shapes\<close>

lemma representable_deoption: "representable leaves ds \<Longrightarrow> deoption ds = ds"
  by (cases ds) auto

lemma representable_not_Option: "representable leaves ds \<Longrightarrow> \<not> is_Option ds"
  by (cases ds) auto

lemma representable_launder_canon: "representable leaves ds \<Longrightarrow> launder (canon ds) = ds"
  by (cases ds) (auto split: list.splits)

lemma representable_field_deoption:
  "representable_field leaves ds \<Longrightarrow> representable leaves (deoption ds)"
  by (cases ds) (auto split: list.splits if_splits)

lemma representable_field_rebuild:
  "representable_field leaves ds \<Longrightarrow>
     launder (if is_Option ds then Option_init (canon (deoption ds)) else canon (deoption ds)) = ds"
proof (cases ds)
  case (Option ty)
  assume "representable_field leaves ds"
  with Option have "representable leaves ty" by simp
  then have "launder (canon ty) = ty" by (rule representable_launder_canon)
  with Option show ?thesis by (simp add: Option_init_def)
next
  case (Unit u)
  then show ?thesis by simp
next
  case (Record fs)
  then show ?thesis by simp
next
  case (DataShape p ps)
  assume "representable_field leaves ds"
  with DataShape have r: "representable leaves (DataShape p ps)" by simp
  from r have "deoption (DataShape p ps) = DataShape p ps" by (rule representable_deoption)
  moreover from r have "launder (canon (DataShape p ps)) = DataShape p ps"
    by (rule representable_launder_canon)
  ultimately show ?thesis using DataShape by simp
qed simp_all

lemma representable_params_laundered:
  "representable leaves (DataShape p ps) \<Longrightarrow> map launder (p # ps) = p # ps"
proof (induction ps arbitrary: p)
  case Nil
  then show ?case by simp
next
  case (Cons q qs)
  show ?case
  proof (cases "qs = []")
    case True
    with Cons.prems have "p = Var" "\<not> is_DataShape q" by simp_all
    then have "launder q = q" by (cases q) simp_all
    with True \<open>p = Var\<close> show ?thesis by simp
  next
    case False
    with Cons.prems have "p = Var" "representable leaves (DataShape q qs)" by simp_all
    with Cons.IH [of q] show ?thesis by simp
  qed
qed

lemma var_mul_canon:
  "representable leaves ds \<Longrightarrow>
     var_mul (canon ds) = (case ds of DataShape p ps \<Rightarrow> DataShape Var (p # ps) | _ \<Rightarrow> DataShape Var [ds])"
proof (cases ds)
  case (DataShape p ps)
  assume "representable leaves ds"
  with DataShape have "representable leaves (DataShape p ps)" by simp
  then have "map launder (p # ps) = p # ps" by (rule representable_params_laundered)
  with DataShape show ?thesis by (simp add: var_mul_def)
qed (simp_all add: var_mul_def)


lemma array_element_rebuild:
  assumes "\<not> is_DataShape q" and "representable_field leaves q"
  shows "var_mul (if is_Option q then Option_init (canon (deoption q)) else canon (deoption q))
           = DataShape Var [q]"
proof (cases "is_Option q")
  case True
  then obtain ty where ty: "q = Option ty" by (cases q) simp_all
  with assms(2) have "launder (canon ty) = ty"
    by (simp add: representable_launder_canon)
  with ty show ?thesis by (simp add: Option_init_def var_mul_def)
next
  case False
  with assms(2) have r: "representable leaves q" by (cases q) simp_all
  then have "deoption q = q" by (rule representable_deoption)
  moreover from r assms(1) have "var_mul (canon q) = DataShape Var [q]"
    using var_mul_canon [OF r] by (cases q) simp_all
  ultimately show ?thesis using False by simp
qed

lemma fields_round_trip:
  assumes "\<forall>f \<in> set fields.
             \<exists>s. dshape_to_schema (deoption (snd f)) = Inr s \<and>
                 schema_to_dshape s = Inr (canon (deoption (snd f)))"
  shows "\<exists>fs. traverse (\<lambda>(name, ty).
                   case dshape_to_schema (deoption ty) of
                     Inl e \<Rightarrow> Inl e
                   | Inr s \<Rightarrow> Inr (StructField name s (is_Option ty))) fields = Inr fs \<and>
              traverse (\<lambda>(name, dataType, nullable).
                   if nullable then
                     (case schema_to_dshape dataType of
                        Inl e \<Rightarrow> Inl e
                      | Inr d \<Rightarrow> Inr (name, Option_init d))
                   else
                     (case schema_to_dshape dataType of
                        Inl e \<Rightarrow> Inl e
                      | Inr d \<Rightarrow> Inr (name, d))) fs =
                Inr (map (\<lambda>(name, ty).
                       (name, if is_Option ty then Option_init (canon (deoption ty))
                              else canon (deoption ty))) fields)"
  using assms
proof (induction fields)
  case Nil
  show ?case by simp
next
  case (Cons f fields)
  obtain name ty where f: "f = (name, ty)" by (cases f)
  from Cons.prems f obtain s where
    s: "dshape_to_schema (deoption ty) = Inr s" "schema_to_dshape s = Inr (canon (deoption ty))"
    by auto
  from Cons.prems have "\<forall>f \<in> set fields.
             \<exists>s. dshape_to_schema (deoption (snd f)) = Inr s \<and>
                 schema_to_dshape s = Inr (canon (deoption (snd f)))"
    by simp
  from Cons.IH [OF this] obtain fs where
    fs: "traverse (\<lambda>(name, ty).
                   case dshape_to_schema (deoption ty) of
                     Inl e \<Rightarrow> Inl e
                   | Inr s \<Rightarrow> Inr (StructField name s (is_Option ty))) fields = Inr fs"
        "traverse (\<lambda>(name, dataType, nullable).
                   if nullable then
                     (case schema_to_dshape dataType of
                        Inl e \<Rightarrow> Inl e
                      | Inr d \<Rightarrow> Inr (name, Option_init d))
                   else
                     (case schema_to_dshape dataType of
                        Inl e \<Rightarrow> Inl e
                      | Inr d \<Rightarrow> Inr (name, d))) fs =
                Inr (map (\<lambda>(name, ty).
                       (name, if is_Option ty then Option_init (canon (deoption ty))
                              else canon (deoption ty))) fields)"
    by blast
  show ?case
    by (rule exI [of _ "StructField name s (is_Option ty) # fs"]) (simp add: f s fs)
qed

lemma fields_rebuild:
  assumes "\<forall>f \<in> set fields. representable_field leaves (snd f)"
  shows "Record_init (map (\<lambda>(name, ty).
                       (name, if is_Option ty then Option_init (canon (deoption ty))
                              else canon (deoption ty))) fields) = Record fields"
proof -
  have "map (\<lambda>(name, ty). (name, launder ty))
          (map (\<lambda>(name, ty).
                       (name, if is_Option ty then Option_init (canon (deoption ty))
                              else canon (deoption ty))) fields) = fields"
    using assms
  proof (induction fields)
    case Nil
    show ?case by simp
  next
    case (Cons f fields)
    obtain name ty where f: "f = (name, ty)" by (cases f)
    with Cons.prems have "representable_field leaves ty" by simp
    then have "launder (if is_Option ty then Option_init (canon (deoption ty))
                        else canon (deoption ty)) = ty"
      by (rule representable_field_rebuild)
    with Cons f show ?case by simp
  qed
  then show ?thesis by (simp add: Record_init_def)
qed

lemma leaf_round_trip:
  assumes "Unit u \<in> set leaves" and "set leaves \<subseteq> set convertible_leaves"
  shows "\<exists>s. dshape_to_schema (Unit u) = Inr s \<and> schema_to_dshape s = Inr (canon (Unit u))"
proof -
  from assms have "Unit u \<in> set convertible_leaves" by auto
  then show ?thesis
    by (auto simp: convertible_leaves_eq dshape_to_sparksql_def ds_real_def
          schema_to_dshape_scalar)
qed

lemma round_trip_representable:
  "representable leaves ds \<Longrightarrow> set leaves \<subseteq> set convertible_leaves \<Longrightarrow>
     \<exists>s. dshape_to_schema ds = Inr s \<and> schema_to_dshape s = Inr (canon ds)"
proof (induction ds rule: dshape_to_schema.induct)
  case (1 dshapes)
  then show ?case by simp
next
  case (2 fields)
  have fr: "\<forall>f \<in> set fields. representable_field leaves (snd f)"
    using "2.prems"(1) by (auto simp: list_all_iff)
  have "\<forall>f \<in> set fields.
             \<exists>s. dshape_to_schema (deoption (snd f)) = Inr s \<and>
                 schema_to_dshape s = Inr (canon (deoption (snd f)))"
  proof
    fix f assume fin: "f \<in> set fields"
    obtain name ty where f: "f = (name, ty)" by (cases f)
    from fr fin f have "representable_field leaves ty" by auto
    then have "representable leaves (deoption ty)" by (rule representable_field_deoption)
    from "2.IH" [OF fin f [symmetric] this "2.prems"(2)] f
    show "\<exists>s. dshape_to_schema (deoption (snd f)) = Inr s \<and>
                 schema_to_dshape s = Inr (canon (deoption (snd f)))" by simp
  qed
  from fields_round_trip [OF this] obtain fs where
    fs: "traverse (\<lambda>(name, ty).
                   case dshape_to_schema (deoption ty) of
                     Inl e \<Rightarrow> Inl e
                   | Inr s \<Rightarrow> Inr (StructField name s (is_Option ty))) fields = Inr fs"
        "traverse (\<lambda>(name, dataType, nullable).
                   if nullable then
                     (case schema_to_dshape dataType of
                        Inl e \<Rightarrow> Inl e
                      | Inr d \<Rightarrow> Inr (name, Option_init d))
                   else
                     (case schema_to_dshape dataType of
                        Inl e \<Rightarrow> Inl e
                      | Inr d \<Rightarrow> Inr (name, d))) fs =
                Inr (map (\<lambda>(name, ty).
                       (name, if is_Option ty then Option_init (canon (deoption ty))
                              else canon (deoption ty))) fields)"
    by blast
  have "dshape_to_schema (Record fields) = Inr (StructType fs)"
    using fs(1) by simp
  moreover have "schema_to_dshape (StructType fs) = Inr (canon (Record fields))"
    using fs(2) fields_rebuild [OF fr]
    by (simp add: schema_to_dshape_StructType datashape_dshape_def)
  ultimately show ?case by blast
next
  case (3 p ps)
  from "3.prems"(1) obtain q qs where p: "p = Var" and ps: "ps = q # qs"
    by (cases ps) auto
  show ?case
  proof (cases "qs = []")
    case True
    with "3.prems"(1) p ps have q: "\<not> is_DataShape q" "representable_field leaves q" by simp_all
    from q(2) have rq: "representable leaves (deoption q)" by (rule representable_field_deoption)
    have "isdimension p" using p by simp
    from "3.IH"(1) [OF this, of "DataShape q []" q] ps True rq "3.prems"(2)
    obtain s where s: "dshape_to_schema (deoption q) = Inr s"
        "schema_to_dshape s = Inr (canon (deoption q))"
      by auto
    have fwd: "dshape_to_schema (DataShape p ps) = Inr (ArrayType s (is_Option q))"
      using p ps True s(1) by simp
    have "schema_to_dshape (ArrayType s (is_Option q)) = Inr (canon (DataShape p ps))"
      using s(2) array_element_rebuild [OF q] p ps True
      by (simp add: schema_to_dshape_ArrayType)
    with fwd show ?thesis by blast
  next
    case False
    with "3.prems"(1) p ps have r: "representable leaves (DataShape q qs)" by simp
    then have d: "deoption (DataShape q qs) = DataShape q qs" by (rule representable_deoption)
    have "isdimension p" using p by simp
    from "3.IH"(1) [OF this, of "DataShape q qs" "DataShape q qs"] ps False r d "3.prems"(2)
    obtain s where s: "dshape_to_schema (DataShape q qs) = Inr s"
        "schema_to_dshape s = Inr (DataShape q qs)"
      by auto
    have fwd: "dshape_to_schema (DataShape p ps) = Inr (ArrayType s False)"
      using p ps False s(1) d by simp
    have "var_mul (DataShape q qs) = DataShape Var (q # qs)"
      using var_mul_canon [OF r] by simp
    then have "schema_to_dshape (ArrayType s False) = Inr (canon (DataShape p ps))"
      using s(2) p ps by (simp add: schema_to_dshape_ArrayType)
    with fwd show ?thesis by blast
  qed
qed (simp_all add: leaf_round_trip del: dshape_to_schema.simps canon.simps)

section \<open>The shapes of the schema system\<close>

text \<open>
  The shapes that \<open>schema_to_dshape\<close> returns are those of the representable shapes
  over the scalar shapes of the schema system.
\<close>

lemma schema_fields_shapes:
  assumes "\<forall>f \<in> set fields. \<forall>d. schema_to_dshape (fst (snd f)) = Inr d \<longrightarrow>
             (\<exists>t. representable leaves t \<and> d = canon t)"
    and "traverse (\<lambda>(name, dataType, nullable).
              if nullable then
                (case schema_to_dshape dataType of
                   Inl e \<Rightarrow> Inl e
                 | Inr d \<Rightarrow> Inr (name, Option_init d))
              else
                (case schema_to_dshape dataType of
                   Inl e \<Rightarrow> Inl e
                 | Inr d \<Rightarrow> Inr (name, d))) fields = Inr fs"
  shows "\<exists>fs'. Record_init fs = Record fs' \<and> representable leaves (Record fs')"
  using assms
proof (induction fields arbitrary: fs)
  case Nil
  then show ?case by (simp add: Record_init_def)
next
  case (Cons f fields)
  obtain name dataType nullable where f: "f = (name, dataType, nullable)" by (cases f)
  from Cons.prems(2) f obtain d rest where
    d: "schema_to_dshape dataType = Inr d" and
    rest: "traverse (\<lambda>(name, dataType, nullable).
              if nullable then
                (case schema_to_dshape dataType of
                   Inl e \<Rightarrow> Inl e
                 | Inr d \<Rightarrow> Inr (name, Option_init d))
              else
                (case schema_to_dshape dataType of
                   Inl e \<Rightarrow> Inl e
                 | Inr d \<Rightarrow> Inr (name, d))) fields = Inr rest" and
    fs: "fs = (name, if nullable then Option_init d else d) # rest"
    by (auto split: sum.splits if_splits)
  from Cons.prems(1) f d obtain t where t: "representable leaves t" "d = canon t" by auto
  from Cons.prems(1) have "\<forall>f \<in> set fields. \<forall>d. schema_to_dshape (fst (snd f)) = Inr d \<longrightarrow>
             (\<exists>t. representable leaves t \<and> d = canon t)" by simp
  from Cons.IH [OF this rest] obtain fs' where
    fs': "Record_init rest = Record fs'" "representable leaves (Record fs')" by blast
  have l: "launder (canon t) = t" using t(1) by (rule representable_launder_canon)
  have no: "\<not> is_Option t" using t(1) by (rule representable_not_Option)
  have "representable_field leaves (launder (if nullable then Option_init d else d))"
    using t l no by (cases t) (auto simp: Option_init_def)
  with fs fs' show ?case
    by (auto simp: Record_init_def)
qed

lemma leaf_is_canon:
  "Unit u \<in> set leaves \<Longrightarrow> \<exists>t. representable leaves t \<and> Unit u = canon t"
  by (rule exI [of _ "Unit u"]) simp

lemma schema_shapes_representable:
  "schema_to_dshape s = Inr ds \<Longrightarrow> \<exists>t. representable schema_leaves t \<and> ds = canon t"
proof (induction s arbitrary: ds rule: schema_to_dshape.induct)
  case (1 schema)
  show ?case
  proof (cases schema)
    case (ArrayType elementType containsNull)
    from "1.prems" ArrayType obtain d where
      d: "schema_to_dshape elementType = Inr d" and
      ds: "ds = var_mul (if containsNull then Option_init d else d)"
      by (auto simp: schema_to_dshape_ArrayType split: sum.splits)
    have "map_of sparksql_to_dshape schema = None"
      using ArrayType by (simp add: sparksql_to_dshape_def)
    from "1.IH"(1) [OF this ArrayType d] obtain t where
      t: "representable schema_leaves t" "d = canon t" by blast
    have l: "launder (canon t) = t" using t(1) by (rule representable_launder_canon)
    have no: "\<not> is_Option t" using t(1) by (rule representable_not_Option)
    show ?thesis
    proof (cases containsNull)
      case True
      with ds t l have "ds = DataShape Var [Option t]"
        by (simp add: Option_init_def var_mul_def)
      moreover have "representable schema_leaves (DataShape Var [Option t])"
        using t(1) by simp
      ultimately show ?thesis by (intro exI [of _ "DataShape Var [Option t]"]) simp
    next
      case False
      with ds t have ds': "ds = (case t of DataShape p ps \<Rightarrow> DataShape Var (p # ps)
                                 | _ \<Rightarrow> DataShape Var [t])"
        using var_mul_canon [OF t(1)] by simp
      have "representable schema_leaves ds"
        using t(1) no unfolding ds' by (cases t) (auto split: list.splits)
      moreover have "canon ds = ds" unfolding ds' by (cases t) simp_all
      ultimately show ?thesis by (intro exI [of _ ds]) simp
    qed
  next
    case (StructType fields)
    have none: "map_of sparksql_to_dshape schema = None"
      using StructType by (simp add: sparksql_to_dshape_def)
    from "1.prems" StructType obtain fs where
      fs: "traverse (\<lambda>(name, dataType, nullable).
              if nullable then
                (case schema_to_dshape dataType of
                   Inl e \<Rightarrow> Inl e
                 | Inr d \<Rightarrow> Inr (name, Option_init d))
              else
                (case schema_to_dshape dataType of
                   Inl e \<Rightarrow> Inl e
                 | Inr d \<Rightarrow> Inr (name, d))) fields = Inr fs" and
      ds: "ds = datashape_dshape (Record_init fs)"
      by (auto simp: schema_to_dshape_StructType split: sum.splits)
    have "\<forall>f \<in> set fields. \<forall>d. schema_to_dshape (fst (snd f)) = Inr d \<longrightarrow>
             (\<exists>t. representable schema_leaves t \<and> d = canon t)"
    proof (intro ballI allI impI)
      fix f d assume fin: "f \<in> set fields" and d: "schema_to_dshape (fst (snd f)) = Inr d"
      obtain name dataType nullable where f: "f = (name, dataType, nullable)" by (cases f)
      show "\<exists>t. representable schema_leaves t \<and> d = canon t"
      proof (cases nullable)
        case True
        from "1.IH"(2) [OF none StructType fin f [symmetric] refl True] d f
        show ?thesis by simp
      next
        case False
        from "1.IH"(3) [OF none StructType fin f [symmetric] refl False] d f
        show ?thesis by simp
      qed
    qed
    from schema_fields_shapes [OF this fs] obtain fs' where
      fs': "Record_init fs = Record fs'" "representable schema_leaves (Record fs')" by blast
    with ds show ?thesis
      by (intro exI [of _ "Record fs'"]) (simp add: datashape_dshape_def)
  next
    case (MapType k v c)
    with "1.prems" show ?thesis by (simp add: schema_to_dshape_MapType)
  next
    case (OtherType n)
    with "1.prems" show ?thesis by (simp add: schema_to_dshape_OtherType)
  qed (use "1.prems" in
        \<open>auto simp: schema_to_dshape_scalar schema_leaves_eq intro!: leaf_is_canon\<close>)
qed

lemma schema_of_fields:
  fixes fields :: "(string \<times> mono) list"
  assumes "\<forall>f \<in> set fields. \<exists>s. schema_to_dshape s = Inr (canon (deoption (snd f)))"
  shows "\<exists>sfs. traverse (\<lambda>(name, dataType, nullable).
              if nullable then
                (case schema_to_dshape dataType of
                   Inl e \<Rightarrow> Inl e
                 | Inr d \<Rightarrow> Inr (name, Option_init d))
              else
                (case schema_to_dshape dataType of
                   Inl e \<Rightarrow> Inl e
                 | Inr d \<Rightarrow> Inr (name, d))) sfs =
            Inr (map (\<lambda>(name, ty).
                   (name, if is_Option ty then Option_init (canon (deoption ty))
                          else canon (deoption ty))) fields)"
  using assms
proof (induction fields)
  case Nil
  show ?case by (rule exI [of _ "[]"]) simp
next
  case (Cons f fields)
  obtain name ty where f: "f = (name, ty)" by (cases f)
  from Cons.prems f obtain s where s: "schema_to_dshape s = Inr (canon (deoption ty))" by auto
  from Cons.prems have "\<forall>f \<in> set fields. \<exists>s. schema_to_dshape s = Inr (canon (deoption (snd f)))"
    by simp
  from Cons.IH [OF this] obtain sfs where
    sfs: "traverse (\<lambda>(name, dataType, nullable).
              if nullable then
                (case schema_to_dshape dataType of
                   Inl e \<Rightarrow> Inl e
                 | Inr d \<Rightarrow> Inr (name, Option_init d))
              else
                (case schema_to_dshape dataType of
                   Inl e \<Rightarrow> Inl e
                 | Inr d \<Rightarrow> Inr (name, d))) sfs =
            Inr (map (\<lambda>(name, ty).
                   (name, if is_Option ty then Option_init (canon (deoption ty))
                          else canon (deoption ty))) fields)"
    by blast
  show ?case
    by (rule exI [of _ "StructField name s (is_Option ty) # sfs"]) (simp add: f s sfs)
qed

lemma representable_has_schema:
  "representable leaves ds \<Longrightarrow> set leaves \<subseteq> set schema_leaves \<Longrightarrow>
     \<exists>s. schema_to_dshape s = Inr (canon ds)"
  and "representable_field leaves ds \<Longrightarrow> set leaves \<subseteq> set schema_leaves \<Longrightarrow>
     \<exists>s. schema_to_dshape s = Inr (canon (deoption ds))"
proof (induction leaves ds and leaves ds rule: representable_representable_field.induct)
  case (1 leaves u)
  then have "Unit u \<in> set schema_leaves" by auto
  then have "\<exists>s. schema_to_dshape s = Inr (Unit u)"
    unfolding schema_leaves_eq
    by (auto intro: schema_to_dshape_scalar)
  then show ?case by simp
next
  case (2 leaves fields)
  have fr: "\<forall>f \<in> set fields. representable_field leaves (snd f)"
    using "2.prems"(1) by (auto simp: list_all_iff)
  have "\<forall>f \<in> set fields. \<exists>s. schema_to_dshape s = Inr (canon (deoption (snd f)))"
  proof
    fix f assume fin: "f \<in> set fields"
    obtain name ty where f: "f = (name, ty)" by (cases f)
    from fr fin f have "representable_field leaves ty" by auto
    from "2.IH" [OF fin f [symmetric] this "2.prems"(2)] f
    show "\<exists>s. schema_to_dshape s = Inr (canon (deoption (snd f)))" by simp
  qed
  from schema_of_fields [OF this] obtain sfs where
    "traverse (\<lambda>(name, dataType, nullable).
              if nullable then
                (case schema_to_dshape dataType of
                   Inl e \<Rightarrow> Inl e
                 | Inr d \<Rightarrow> Inr (name, Option_init d))
              else
                (case schema_to_dshape dataType of
                   Inl e \<Rightarrow> Inl e
                 | Inr d \<Rightarrow> Inr (name, d))) sfs =
            Inr (map (\<lambda>(name, ty).
                   (name, if is_Option ty then Option_init (canon (deoption ty))
                          else canon (deoption ty))) fields)"
    by blast
  then have "schema_to_dshape (StructType sfs) = Inr (canon (Record fields))"
    using fields_rebuild [OF fr]
    by (simp add: schema_to_dshape_StructType datashape_dshape_def)
  then show ?case by blast
next
  case (3 leaves p ps)
  from "3.prems"(1) obtain q qs where p: "p = Var" and ps: "ps = q # qs"
    by (cases ps) auto
  show ?case
  proof (cases "qs = []")
    case True
    with "3.prems"(1) p ps have q: "\<not> is_DataShape q" "representable_field leaves q" by simp_all
    from "3.IH"(1) [OF ps True q(2) "3.prems"(2)] obtain s where
      s: "schema_to_dshape s = Inr (canon (deoption q))" by blast
    have "schema_to_dshape (ArrayType s (is_Option q)) = Inr (canon (DataShape p ps))"
      using s array_element_rebuild [OF q] p ps True
      by (simp add: schema_to_dshape_ArrayType)
    then show ?thesis by blast
  next
    case False
    with "3.prems"(1) p ps have r: "representable leaves (DataShape q qs)" by simp
    from "3.IH"(2) [OF ps False r "3.prems"(2)] obtain s where
      s: "schema_to_dshape s = Inr (DataShape q qs)" by auto
    have "var_mul (DataShape q qs) = DataShape Var (q # qs)"
      using var_mul_canon [OF r] by simp
    then have "schema_to_dshape (ArrayType s False) = Inr (canon (DataShape p ps))"
      using s p ps by (simp add: schema_to_dshape_ArrayType)
    then show ?thesis by blast
  qed
qed simp_all

lemma schema_shapes_are_the_representable:
  "(\<exists>s. schema_to_dshape s = Inr ds) \<longleftrightarrow>
   (\<exists>t. representable schema_leaves t \<and> ds = canon t)"
  using schema_shapes_representable [of _ ds] representable_has_schema(1) [OF _ subset_refl]
  by blast

section \<open>The errors of the shape-to-schema conversion\<close>

lemma dshape_to_schema_bare_error:
  "dshape_to_schema ds = Inl (NotImplementedError args) \<Longrightarrow> args = []"
proof (induction ds rule: dshape_to_schema.induct)
  case (2 fields)
  from "2.prems" have "traverse (\<lambda>(name, ty).
              case dshape_to_schema (deoption ty) of
                Inl e \<Rightarrow> Inl e
              | Inr s \<Rightarrow> Inr (StructField name s (is_Option ty))) fields = Inl (NotImplementedError args)"
    by (simp split: sum.splits)
  then obtain f where f: "f \<in> set fields"
    "(case f of (name, ty) \<Rightarrow> case dshape_to_schema (deoption ty) of
                Inl e \<Rightarrow> Inl e
              | Inr s \<Rightarrow> Inr (StructField name s (is_Option ty))) = Inl (NotImplementedError args)"
    by (blast dest: traverse_Inl)
  obtain name ty where nt: "f = (name, ty)" by (cases f)
  with f(2) have "dshape_to_schema (deoption ty) = Inl (NotImplementedError args)"
    by (simp split: sum.splits)
  from "2.IH" [OF f(1) nt [symmetric] this] show ?case .
next
  case (3 p ps)
  show ?case
  proof (cases "isdimension p")
    case True
    show ?thesis
    proof (cases ps)
      case Nil
      with "3.prems" True show ?thesis by simp
    next
      case (Cons q qs)
      from "3.prems" have
        "(case dshape_to_schema (deoption (if qs = [] then q else DataShape q qs)) of
            Inl e \<Rightarrow> Inl e
          | Inr s \<Rightarrow> Inr (ArrayType s (is_Option (if qs = [] then q else DataShape q qs)))) =
         Inl (NotImplementedError args)"
        unfolding Cons dshape_to_schema_dimension [OF True] .
      then have "dshape_to_schema (deoption (if qs = [] then q else DataShape q qs)) =
         Inl (NotImplementedError args)"
        by (rule case_sum_Inl)
      moreover have "subshape0 (DataShape p ps) = Inr (DataShape q qs)"
        using Cons by simp
      ultimately show ?thesis
        using "3.IH"(1) [OF True, of "DataShape q qs" "if qs = [] then q else DataShape q qs"]
          elem_unwrap [of q qs]
        by (simp del: dshape_to_schema.simps)
    qed
  next
    case False
    with "3.prems" have "dshape_to_schema p = Inl (NotImplementedError args)" by simp
    from "3.IH"(2) [OF False this] show ?thesis .
  qed
qed (auto split: option.splits)

section \<open>Where deoption does nothing\<close>

lemma deoption_fixed_iff: "deoption ds = ds \<longleftrightarrow> stripped ds"
proof (cases ds)
  case (Option ty)
  have "size ty < size (Option ty)" by simp
  then have "ty \<noteq> Option ty" by auto
  with Option show ?thesis by simp
next
  case (DataShape p ps)
  have "size (deoption p) < size (DataShape p ps)"
    using size_deoption [of p] by simp
  then have "deoption p \<noteq> DataShape p ps" by auto
  with DataShape show ?thesis by simp
qed simp_all

lemma stripped_deoption: "stripped (deoption ds) \<longleftrightarrow> one_layer ds"
  by (induction ds rule: deoption.induct) simp_all

section \<open>Values of the converters and of the classification\<close>

text \<open>
  The record of the specification's scenario and its struct; a time of day and an array
  of fixed length, which convert to a schema and come back as a datetime and as an
  array of unbounded length.
\<close>

lemma scenario_struct:
  "dshape_to_schema (Record [(''name'', Unit ds_string), (''amount'', Option (Unit ds_int32))]) =
     Inr (StructType [StructField ''name'' StringType False,
                      StructField ''amount'' IntegerType True])"
  by (simp add: dshape_to_sparksql_def ds_real_def)

lemma time_and_fixed_come_back_changed:
  "shape_roundtrip (Record [(''t'', Unit ds_time)]) =
     Inr (DataShape (Record [(''t'', Unit ds_datetime)]) [])"
  "shape_roundtrip (Record [(''xs'', DataShape (Fixed 10) [Unit ds_int32])]) =
     Inr (DataShape (Record [(''xs'', DataShape Var [Unit ds_int32])]) [])"
  by (simp_all add: shape_roundtrip_def dshape_to_sparksql_def ds_real_def
        schema_to_dshape_StructType schema_to_dshape_ArrayType schema_to_dshape_scalar
        datashape_dshape_def Record_init_def var_mul_def)

text \<open>
  The boolean false is reported as splayed and as standard: \<open>int(False)\<close> is 0.  Mixed
  case: the code \<open>J\<close> is looked up as \<open>j\<close>.
\<close>

lemma splayed_is_also_standard:
  "is_splayed (PyBool False) \<and> is_standard (PyBool False) = Inr True"
  by (simp add: is_splayed_def is_standard_def)

lemma table_types_lowercases:
  "table_types [(''a'', Some ''J''), (''b'', None)] = Inr [Unit ds_int64, Unit ds_null]"
  by code_simp

text \<open>A table name that comes twice keeps its first place and its last shape.\<close>

lemma tables_repeated_name:
  "tables [(''t'', [(''a'', Some ''j'')]), (''u'', []), (''t'', [(''b'', Some ''f'')])] =
     Inr [(''t'', DataShape Var [Record [(''b'', Unit ds_float64)]]),
          (''u'', DataShape Var [Record []])]"
  by code_simp

section \<open>Claims on the shape-schema mapper\<close>

text \<open>
  C1, as the specification states it, fails: the 8-bit integer is a scalar shape of the
  schema system (\<open>sparksql_to_dshape\<close> maps \<open>ByteType\<close> to it), the record with one
  field of that type is the shape of a struct, and it does not come back from the round
  trip; its conversion to a schema raises \<open>NotImplementedError\<close>.
\<close>

theorem int8_record_does_not_round_trip:
  "schema_to_dshape (StructType [StructField ''x'' ByteType False]) =
     Inr (datashape_dshape (Record [(''x'', Unit ds_int8)])) \<and>
   representable schema_leaves (Record [(''x'', Unit ds_int8)]) \<and>
   shape_roundtrip (Record [(''x'', Unit ds_int8)]) = Inl (NotImplementedError [])"
  by (simp add: schema_leaves_eq shape_roundtrip_def dshape_to_sparksql_def ds_real_def
        schema_to_dshape_StructType schema_to_dshape_scalar datashape_dshape_def
        Record_init_def)

text \<open>
  C1, amended: for every record shape built only from the convertible scalar leaves
  (the scalar shapes of the schema system that \<open>dshape_to_sparksql\<close> has an entry for:
  all of them but the 8-bit integer and bytes), nested records, arrays of \<open>Var\<close>
  dimensions and at most one \<open>Option\<close> around a field type or an element type, the
  round trip succeeds and returns \<open>datashape.dshape\<close> of the record: the
  \<open>DataShape\<close> whose only parameter is the record itself, with the same fields, names,
  order and \<open>Option\<close> wrappers.  What comes back is the record inside a \<open>DataShape\<close>,
  not the bare record; the round trip of that \<open>DataShape\<close> returns it unchanged.
\<close>

theorem record_round_trip:
  "representable convertible_leaves (Record fields) \<Longrightarrow>
     shape_roundtrip (Record fields) = Inr (datashape_dshape (Record fields)) \<and>
     shape_roundtrip (datashape_dshape (Record fields)) = Inr (datashape_dshape (Record fields)) \<and>
     datashape_dshape (Record fields) = DataShape (Record fields) []"
proof -
  assume r: "representable convertible_leaves (Record fields)"
  from round_trip_representable [OF r subset_refl] obtain s where
    s: "dshape_to_schema (Record fields) = Inr s" "schema_to_dshape s = Inr (canon (Record fields))"
    by blast
  have c: "canon (Record fields) = datashape_dshape (Record fields)"
    by (simp add: datashape_dshape_def)
  have "shape_roundtrip (Record fields) = Inr (datashape_dshape (Record fields))"
    unfolding shape_roundtrip_def using s c by simp
  moreover have "dshape_to_schema (datashape_dshape (Record fields)) = Inr s"
    using s(1) by (simp add: datashape_dshape_def)
  then have "shape_roundtrip (datashape_dshape (Record fields)) =
      Inr (datashape_dshape (Record fields))"
    unfolding shape_roundtrip_def using s(2) c by simp
  moreover have "datashape_dshape (Record fields) = DataShape (Record fields) []"
    by (simp add: datashape_dshape_def)
  ultimately show ?thesis by blast
qed

theorem record_round_trip_witness:
  "representable convertible_leaves
     (Record [(''name'', Unit ds_string), (''amount'', Option (Unit ds_int32))]) \<and>
   shape_roundtrip (Record [(''name'', Unit ds_string), (''amount'', Option (Unit ds_int32))]) =
     Inr (DataShape (Record [(''name'', Unit ds_string), (''amount'', Option (Unit ds_int32))]) [])"
proof -
  have h: "representable convertible_leaves
     (Record [(''name'', Unit ds_string), (''amount'', Option (Unit ds_int32))])"
    by (simp add: convertible_leaves_eq)
  show ?thesis
    using h record_round_trip [OF h] by (simp add: datashape_dshape_def)
qed

text \<open>
  C4, as the specification states it, fails: \<open>deoption\<close> removes one \<open>Option\<close>, so on an
  \<open>Option\<close> around an \<open>Option\<close> the second application removes another one.
\<close>

theorem deoption_not_idempotent:
  "deoption (deoption (Option (Option (Unit ds_int32)))) \<noteq>
   deoption (Option (Option (Unit ds_int32)))"
  by simp

text \<open>
  C4, amended: \<open>deoption\<close> goes through the \<open>DataShape\<close> wrappers whose first parameter
  is no dimension, stops at a \<open>DataShape\<close> whose first parameter is a dimension, and
  returns the inner type of the first \<open>Option\<close> it reaches; \<open>deoption(deoption(S))\<close>
  equals \<open>deoption(S)\<close> exactly when that inner type is itself neither an \<open>Option\<close> nor a
  \<open>DataShape\<close> whose first parameter is no dimension (\<open>one_layer S\<close>).
\<close>

theorem deoption_idempotent_iff:
  "(deoption (deoption ds) = deoption ds \<longleftrightarrow> one_layer ds) \<and>
   (isdimension p \<longrightarrow> deoption (DataShape p ps) = DataShape p ps) \<and>
   (\<not> isdimension p \<longrightarrow> deoption (DataShape p ps) = deoption p) \<and>
   deoption (Option ty) = ty"
  using deoption_fixed_iff [of "deoption ds"] stripped_deoption [of ds] by simp

theorem deoption_idempotent_iff_witness:
  "one_layer (DataShape (Option (Unit ds_int32)) []) \<and>
   deoption (deoption (DataShape (Option (Unit ds_int32)) [])) =
     deoption (DataShape (Option (Unit ds_int32)) []) \<and>
   isdimension Var \<and>
   deoption (DataShape Var [Option (Unit ds_int32)]) = DataShape Var [Option (Unit ds_int32)] \<and>
   \<not> isdimension (Unit ds_int32) \<and>
   deoption (DataShape (Unit ds_int32) []) = Unit ds_int32"
  using deoption_idempotent_iff [of "DataShape (Option (Unit ds_int32)) []" Var
      "[Option (Unit ds_int32)]" "Unit ds_int32"]
    deoption_idempotent_iff [of "Unit ds_int32" "Unit ds_int32" "[]" "Unit ds_int32"]
  by simp

text \<open>
  C5: the conversion of a tuple shape raises the \<open>TypeError\<close> whose message asks for a
  record shape and shows the types of the tuple; so does the conversion of a tuple
  inside a \<open>DataShape\<close> of one parameter and of a tuple as the element of an array.
  No schema is returned.
\<close>

theorem tuple_shape_rejected:
  "dshape_to_schema (Tuple dshapes) =
     Inl (TypeError ''Please provide a Record dshape for these column types: '' dshapes) \<and>
   dshape_to_schema (DataShape (Tuple dshapes) []) =
     Inl (TypeError ''Please provide a Record dshape for these column types: '' dshapes) \<and>
   dshape_to_schema (DataShape Var [Tuple dshapes]) =
     Inl (TypeError ''Please provide a Record dshape for these column types: '' dshapes)"
  by simp

text \<open>
  C6, as the specification states it, fails: for the array of records of one field,
  \<open>var * {a: int32}\<close>, the element type of the array schema is the struct of that one
  field; the record is not unwrapped to the type of its entry, as the rule of the
  specification would have it.
\<close>

theorem one_entry_record_not_unwrapped:
  "dshape_to_schema (DataShape Var [Record [(''a'', Unit ds_int32)]]) =
     Inr (ArrayType (StructType [StructField ''a'' IntegerType False]) False) \<and>
   spec_array_schema (Record [(''a'', Unit ds_int32)]) = Inr (ArrayType IntegerType False)"
  by (simp add: spec_array_schema_def unwrap_one_entry_record_def dshape_to_sparksql_def)

text \<open>
  C6, amended: when the first parameter of a \<open>DataShape\<close> is a dimension, the element is
  the \<open>DataShape\<close> of the parameters after it, replaced by its only parameter when it has
  exactly one (the wrapper that is unwrapped is a \<open>DataShape\<close> of one parameter, not a
  record of one entry); the element type of the array schema is the conversion of
  \<open>deoption\<close> of the element, and the nullable flag is whether the element is an
  \<open>Option\<close>.  An element that is a record of one entry becomes a struct of one field.
\<close>

theorem array_schema_of_dimension:
  "isdimension p \<Longrightarrow>
   dshape_to_schema (DataShape p (q # qs)) =
     (let elem = (if qs = [] then q else DataShape q qs)
      in case dshape_to_schema (deoption elem) of
           Inl e \<Rightarrow> Inl e
         | Inr s \<Rightarrow> Inr (ArrayType s (is_Option elem))) \<and>
   dshape_to_schema (DataShape p [Record [(name, ty)]]) =
     (case dshape_to_schema (deoption ty) of
        Inl e \<Rightarrow> Inl e
      | Inr s \<Rightarrow> Inr (ArrayType (StructType [StructField name s (is_Option ty)]) False))"
proof
  assume p: "isdimension p"
  show "dshape_to_schema (DataShape p (q # qs)) =
     (let elem = (if qs = [] then q else DataShape q qs)
      in case dshape_to_schema (deoption elem) of
           Inl e \<Rightarrow> Inl e
         | Inr s \<Rightarrow> Inr (ArrayType s (is_Option elem)))"
    unfolding Let_def by (rule dshape_to_schema_dimension [OF p])
  show "dshape_to_schema (DataShape p [Record [(name, ty)]]) =
     (case dshape_to_schema (deoption ty) of
        Inl e \<Rightarrow> Inl e
      | Inr s \<Rightarrow> Inr (ArrayType (StructType [StructField name s (is_Option ty)]) False))"
    by (subst dshape_to_schema_dimension [OF p]) (simp split: sum.splits)
qed

theorem array_schema_of_dimension_witness:
  "isdimension (Fixed 5) \<and>
   dshape_to_schema (DataShape (Fixed 5) [Option (Unit ds_int32)]) =
     Inr (ArrayType IntegerType True)"
proof -
  have h: "isdimension (Fixed 5)" by simp
  show ?thesis
    using h array_schema_of_dimension [OF h, of "Option (Unit ds_int32)" "[]"]
    by (simp add: dshape_to_sparksql_def)
qed

text \<open>
  C7: the schema-to-shape conversion raises \<open>NotImplementedError\<close> with a message that
  names the class of the schema; the shape-to-schema conversion raises
  \<open>NotImplementedError()\<close> with no argument, so its error names nothing.
\<close>

theorem not_implemented_messages:
  "dshape_to_schema (Unit ds_int8) = Inl (NotImplementedError []) \<and>
   schema_to_dshape (MapType StringType StringType False) =
     Inl (NotImplementedError [''SparkSQL type not known '' @ repr ''MapType''])"
  by (simp add: dshape_to_sparksql_def ds_real_def schema_to_dshape_MapType)

text \<open>
  C9: the time of day and the datetime are different scalar shapes that both convert to
  the timestamp schema type, and \<open>real\<close> converts to the double schema type; the time
  of day, converted to a schema and back, is the datetime.
\<close>

theorem shape_to_schema_not_injective:
  "dshape_to_schema (Unit ds_time) = Inr TimestampType \<and>
   dshape_to_schema (Unit ds_datetime) = Inr TimestampType \<and>
   Unit ds_time \<noteq> Unit ds_datetime \<and>
   dshape_to_schema (Unit ds_real) = Inr DoubleType \<and>
   shape_roundtrip (Unit ds_time) = Inr (Unit ds_datetime)"
  by (simp add: shape_roundtrip_def dshape_to_sparksql_def ds_real_def schema_to_dshape_scalar)

text \<open>
  C10: the byte schema type converts to the 8-bit integer and the binary schema type to
  bytes, \<open>dshape_to_sparksql\<close> has no entry for either shape, their conversion raises
  \<open>NotImplementedError\<close>, and so does the round trip of the two schema types, alone, as
  the element of an array and as the field of a struct; the round trip of each of the
  other nine scalar schema types returns it.
\<close>

theorem byte_and_binary_do_not_round_trip:
  "schema_to_dshape ByteType = Inr (Unit ds_int8) \<and>
   schema_to_dshape BinaryType = Inr (Unit ds_bytes) \<and>
   map_of dshape_to_sparksql (Unit ds_int8) = None \<and>
   map_of dshape_to_sparksql (Unit ds_bytes) = None \<and>
   dshape_to_schema (Unit ds_int8) = Inl (NotImplementedError []) \<and>
   dshape_to_schema (Unit ds_bytes) = Inl (NotImplementedError []) \<and>
   schema_roundtrip ByteType = Inl (NotImplementedError []) \<and>
   schema_roundtrip BinaryType = Inl (NotImplementedError []) \<and>
   schema_roundtrip (ArrayType ByteType containsNull) = Inl (NotImplementedError []) \<and>
   schema_roundtrip (ArrayType BinaryType containsNull) = Inl (NotImplementedError []) \<and>
   schema_roundtrip (StructType [StructField name ByteType nullable]) =
     Inl (NotImplementedError []) \<and>
   schema_roundtrip (StructType [StructField name BinaryType nullable]) =
     Inl (NotImplementedError []) \<and>
   list_all (\<lambda>s. schema_roundtrip s = Inr s)
     [ShortType, IntegerType, LongType, FloatType, DoubleType, StringType, BooleanType,
      TimestampType, DateType]"
  by (simp add: schema_roundtrip_def dshape_to_sparksql_def ds_real_def schema_to_dshape_scalar
        schema_to_dshape_ArrayType schema_to_dshape_StructType var_mul_def Option_init_def
        Record_init_def datashape_dshape_def)

section \<open>Claims on the table reflector\<close>



text \<open>
  C2, as the specification states it, fails: for the result 5, which is none of true,
  false and 0, no classification raises an error; the three of them return false.
\<close>

theorem classification_no_loud_failure:
  "PyInt 5 \<notin> {PyBool True, PyBool False, PyInt 0} \<and>
   \<not> is_partitioned (PyInt 5) \<and> \<not> is_splayed (PyInt 5) \<and>
   is_standard (PyInt 5) = Inr False"
  by (simp add: is_partitioned_def is_splayed_def is_standard_def)

text \<open>
  C2, amended: \<open>is_partitioned\<close> holds exactly for the boolean true and \<open>is_splayed\<close>
  exactly for the boolean false, so the two never hold together; \<open>is_partitioned\<close>
  excludes \<open>is_standard\<close>; the integer 0 is standard and neither partitioned nor
  splayed; for each of true, false and 0 at least one classification holds; for an
  integer other than 0 the three classifications return false and none raises an
  error; \<open>is_standard\<close> raises an error exactly when \<open>int\<close> does, on \<open>None\<close>.
\<close>

theorem classification_by_result:
  "(is_partitioned r \<longleftrightarrow> r = PyBool True) \<and>
   (is_splayed r \<longleftrightarrow> r = PyBool False) \<and>
   \<not> (is_partitioned r \<and> is_splayed r) \<and>
   (is_partitioned r \<longrightarrow> is_standard r = Inr False) \<and>
   (r = PyInt 0 \<longrightarrow> is_standard r = Inr True \<and> \<not> is_partitioned r \<and> \<not> is_splayed r) \<and>
   (r \<in> {PyBool True, PyBool False, PyInt 0} \<longrightarrow>
      is_partitioned r \<or> is_splayed r \<or> is_standard r = Inr True) \<and>
   (\<forall>i. r = PyInt i \<and> i \<noteq> 0 \<longrightarrow>
      \<not> is_partitioned r \<and> \<not> is_splayed r \<and> is_standard r = Inr False) \<and>
   ((\<exists>e. is_standard r = Inl e) \<longleftrightarrow> r = PyNone)"
  by (cases r) (auto simp add: is_partitioned_def is_splayed_def is_standard_def)

theorem classification_by_result_witness:
  "is_standard (PyInt 0) = Inr True \<and> \<not> is_partitioned (PyInt 0) \<and>
   \<not> is_splayed (PyInt 0) \<and> is_partitioned (PyBool True) \<and>
   is_standard (PyBool True) = Inr False \<and> is_standard (PyInt 7) = Inr False"
  using classification_by_result [of "PyInt 0"] classification_by_result [of "PyBool True"]
    classification_by_result [of "PyInt 7"]
  by simp

text \<open>
  C8: for every outcome \<open>r\<close> of the partition-classification query, a table for which
  \<open>is_partitioned\<close> holds satisfies neither \<open>is_splayed\<close> nor \<open>is_standard\<close>
  (\<open>is_standard\<close> returns \<open>False\<close>, without an error).
\<close>

theorem partitioned_excludes_others:
  "is_partitioned r \<Longrightarrow> \<not> is_splayed r \<and> is_standard r = Inr False"
  by (simp add: is_partitioned_def is_splayed_def is_standard_def)

theorem partitioned_excludes_others_witness:
  "is_partitioned (PyBool True) \<and> \<not> is_splayed (PyBool True) \<and>
   is_standard (PyBool True) = Inr False"
proof -
  have h: "is_partitioned (PyBool True)" by (simp add: is_partitioned_def)
  show ?thesis using h partitioned_excludes_others [OF h] by simp
qed

end
